theory Spec2Isabelle
  imports Main "HOL-Library.Word"
begin

section \<open>Errors\<close>

text \<open>
  Go's \<open>error\<close> interface, restricted to the error values that occur in the package:
  \<open>fmt.Errorf\<close> without and with a wrapped cause (\<open>%w\<close>), the package's own
  \<open>panicError\<close> (whose payload is kept as its \<open>%v\<close> rendering), the two errors of
  package \<open>context\<close> and \<open>bufio.ErrTooLong\<close>.
\<close>

datatype error =
    errorString string
  | wrapError string error
  | panicError string
  | Canceled
  | DeadlineExceeded
  | ErrTooLong

fun Error :: "error \<Rightarrow> string" where
  "Error (errorString s) = s"
| "Error (wrapError prefix e) = prefix @ Error e"
| "Error (panicError v) = ''panic: '' @ v"
| "Error Canceled = ''context canceled''"
| "Error DeadlineExceeded = ''context deadline exceeded''"
| "Error ErrTooLong = ''bufio.Scanner: token too long''"

section \<open>log.go: the paginated log reader\<close>

definition defaultLogPageSize :: int where
  "defaultLogPageSize = 1000"

definition maxLogFileSize :: int where
  "maxLogFileSize = 10 * 1024 * 1024"

definition NL :: char where
  "NL = CHR 0x0A"

definition CR :: char where
  "CR = CHR 0x0D"

subsection \<open>The file system and \<open>bufio.Scanner\<close>\<close>

text \<open>
  What \<open>os.Stat\<close> and \<open>os.Open\<close> can find under a path: nothing, an entry that
  cannot be inspected, or a file with its bytes, which may still refuse to be opened.
\<close>

datatype fileEntry =
    NotExist
  | StatError error
  | File string "error option"

record scanner =
  input :: string
  maxTokenSize :: int
  token :: string
  scanErr :: "error option"

definition NewScanner :: "string \<Rightarrow> scanner" where
  "NewScanner bytes = \<lparr>input = bytes, maxTokenSize = 64 * 1024, token = [], scanErr = None\<rparr>"

definition Buffer :: "scanner \<Rightarrow> int \<Rightarrow> scanner" where
  "Buffer s m = s\<lparr>maxTokenSize := m\<rparr>"

definition dropCR :: "string \<Rightarrow> string" where
  "dropCR data = (if data \<noteq> [] \<and> last data = CR then butlast data else data)"

text \<open>
  One call of \<open>scanner.Scan()\<close> with the default split function \<open>ScanLines\<close>: the next
  token is the input up to the next newline, without the newline and without one
  carriage return before it; a last line without newline is a token too. A line that
  does not fit the buffer stops the scan with \<open>ErrTooLong\<close>; the end of the input
  stops it with no error.
\<close>

definition Scan :: "scanner \<Rightarrow> bool \<times> scanner" where
  "Scan s =
     (if input s = [] \<or> scanErr s \<noteq> None then (False, s)
      else let line = takeWhile (\<lambda>c. c \<noteq> NL) (input s);
               rest = dropWhile (\<lambda>c. c \<noteq> NL) (input s)
           in if maxTokenSize s \<le> int (length line)
              then (False, s\<lparr>scanErr := Some ErrTooLong\<rparr>)
              else (True, s\<lparr>input := drop 1 rest, token := dropCR line\<rparr>))"

lemma Scan_shorter:
  "Scan s = (True, s') \<Longrightarrow> length (input s') < length (input s)"
proof -
  assume a: "Scan s = (True, s')"
  let ?rest = "dropWhile (\<lambda>c. c \<noteq> NL) (input s)"
  from a have ne: "input s \<noteq> []" and s': "input s' = drop 1 ?rest"
    by (auto simp: Scan_def Let_def split: if_splits)
  have "length ?rest \<le> length (input s)"
    by (rule length_dropWhile_le)
  show ?thesis
  proof (cases "?rest")
    case Nil
    with s' ne show ?thesis by simp
  next
    case (Cons c cs)
    with s' \<open>length ?rest \<le> length (input s)\<close> show ?thesis by simp
  qed
qed

subsection \<open>\<open>readLogFileWithPagination\<close>\<close>

record logReadResult =
  Content :: string
  ToLineNum :: int
  IsEnd :: bool

text \<open>The \<open>for scanner.Scan()\<close> loop, with the variables it updates.\<close>

function readLoop ::
  "int \<Rightarrow> int \<Rightarrow> scanner \<Rightarrow> string list \<Rightarrow> int \<Rightarrow> int
     \<Rightarrow> scanner \<times> string list \<times> int \<times> int" where
  "readLoop startLineIndex pageSize sc lines lineIndex toLineNum =
     (if \<not> fst (Scan sc) then (snd (Scan sc), lines, lineIndex, toLineNum)
      else if lineIndex + 1 < startLineIndex
        then readLoop startLineIndex pageSize (snd (Scan sc)) lines (lineIndex + 1) toLineNum
      else if pageSize \<le> int (length (lines @ [token (snd (Scan sc))]))
        then (snd (Scan sc), lines @ [token (snd (Scan sc))], lineIndex + 1, lineIndex + 1)
      else readLoop startLineIndex pageSize (snd (Scan sc))
             (lines @ [token (snd (Scan sc))]) (lineIndex + 1) (lineIndex + 1))"
  by pat_completeness auto
termination
  by (relation "measure (\<lambda>(startLineIndex, pageSize, sc, lines, lineIndex, toLineNum).
                   length (input sc))")
     (auto intro: Scan_shorter simp: prod_eq_iff)

fun Join :: "string list \<Rightarrow> string \<Rightarrow> string" where
  "Join [] sep = []"
| "Join [x] sep = x"
| "Join (x # y # ys) sep = x @ sep @ Join (y # ys) sep"

definition readLogFileWithPagination ::
  "(string \<Rightarrow> fileEntry) \<Rightarrow> string \<Rightarrow> int \<Rightarrow> int \<Rightarrow> error + logReadResult" where
  "readLogFileWithPagination fs filePath fromLineNum pageSize =
     (case fs filePath of
        NotExist \<Rightarrow> Inl (errorString (''log file not found: '' @ filePath))
      | StatError err \<Rightarrow> Inl (wrapError ''failed to stat log file: '' err)
      | File bytes openErr \<Rightarrow>
          if int (length bytes) = 0
          then Inr \<lparr>Content = [],
                    ToLineNum = (if fromLineNum < 0 then 0 else fromLineNum),
                    IsEnd = True\<rparr>
          else
            let forcePagination = (maxLogFileSize < int (length bytes));
                pageSize = (if forcePagination \<and> pageSize \<le> 0
                            then defaultLogPageSize else pageSize);
                pageSize = (if pageSize \<le> 0 then defaultLogPageSize else pageSize);
                startLineIndex = (if fromLineNum < 0 then 0 else fromLineNum)
            in case openErr of
                 Some err \<Rightarrow> Inl (wrapError ''failed to open log file: '' err)
               | None \<Rightarrow>
                   let scanner = Buffer (NewScanner bytes) (1024 * 1024);
                       (scanner, lines, lineIndex, toLineNum) =
                          readLoop startLineIndex pageSize scanner [] (- 1) startLineIndex
                   in case scanErr scanner of
                        Some err \<Rightarrow> Inl (wrapError ''failed to scan log file: '' err)
                      | None \<Rightarrow>
                          let isEnd = (int (length lines) < pageSize)
                          in if lineIndex < startLineIndex
                             then Inr \<lparr>Content = [],
                                       ToLineNum = (if lineIndex < 0 then 0 else lineIndex),
                                       IsEnd = True\<rparr>
                             else Inr \<lparr>Content = Join lines [NL]
                                                   @ (if 0 < length lines then [NL] else []),
                                       ToLineNum = toLineNum,
                                       IsEnd = isEnd\<rparr>)"


subsection \<open>What a log file holds\<close>

text \<open>
  Running the scanner to the end of its input gives every line it would deliver and
  the error it stops with. A log file \<^emph>\<open>has the lines\<close> \<open>T\<close> when it can be opened
  and the scanner of \<open>readLogFileWithPagination\<close> delivers \<open>T\<close> and stops at the end of
  the file with no error.
\<close>

function scanRest :: "scanner \<Rightarrow> string list \<times> error option" where
  "scanRest sc =
     (if fst (Scan sc)
      then (token (snd (Scan sc)) # fst (scanRest (snd (Scan sc))),
            snd (scanRest (snd (Scan sc))))
      else ([], scanErr (snd (Scan sc))))"
  by pat_completeness auto
termination
  by (relation "measure (\<lambda>sc. length (input sc))") (auto intro: Scan_shorter simp: prod_eq_iff)

definition fileLines :: "fileEntry \<Rightarrow> string list option" where
  "fileLines f =
     (case f of
        File bytes None \<Rightarrow>
          (case scanRest (Buffer (NewScanner bytes) (1024 * 1024)) of
             (ts, None) \<Rightarrow> Some ts
           | (ts, Some e) \<Rightarrow> None)
      | _ \<Rightarrow> None)"

definition fileSize :: "fileEntry \<Rightarrow> int" where
  "fileSize f = (case f of File bytes openErr \<Rightarrow> int (length bytes) | _ \<Rightarrow> 0)"

text \<open>The text of a page: every line followed by a newline.\<close>

definition unlines :: "string list \<Rightarrow> string" where
  "unlines ls = concat (map (\<lambda>l. l @ [NL]) ls)"

text \<open>The page size and the first line index the reader works with.\<close>

definition effectivePageSize :: "int \<Rightarrow> int" where
  "effectivePageSize pageSize = (if pageSize \<le> 0 then defaultLogPageSize else pageSize)"

definition startLine :: "int \<Rightarrow> int" where
  "startLine fromLineNum = (if fromLineNum < 0 then 0 else fromLineNum)"

text \<open>A file of 10 MiB and one byte: 10485761 empty lines.\<close>

definition bigLogFile :: string where
  "bigLogFile = replicate 10485761 NL"

section \<open>types.go: handlers and middlewares\<close>

text \<open>
  A task handler runs in a context on a parameter; it may change the world (the state
  \<open>'s\<close>), and it either returns an error value (\<open>None\<close> is Go's \<open>nil\<close>) or panics
  with a value. A panic value is an error or any other value; the latter is kept as
  its \<open>%v\<close> rendering, which is all the package reads of it.
\<close>

datatype panicValue = PanicError error | PanicValue string

datatype 'a result = Returns 'a | Panics panicValue

type_synonym duration = "64 word"

datatype logLine =
    TaskStartedLine string string
  | TaskFailedLine string int error
  | TaskCompletedLine string int

text \<open>
  The \<open>LogWriter\<close> a handler finds in its context. \<open>Write\<close> receives the message with
  its arguments in place of the formatted text. \<open>Close\<close> belongs to the writer that
  \<open>RegTask\<close> creates.
\<close>

record 's LogWriter =
  Write :: "logLine \<Rightarrow> 's \<Rightarrow> 's"
  WriteLine :: "string \<Rightarrow> 's \<Rightarrow> 's"
  Close :: "'s \<Rightarrow> error option \<times> 's"

text \<open>
  What the package asks of a \<open>context.Context\<close>: \<open>ctx.Err()\<close> in the current state;
  the \<open>select\<close> between \<open>ctx.Done()\<close> and \<open>time.After(d)\<close>, which answers \<open>True\<close> when
  the context was done first and leaves the state in which the wait ended; and the
  value stored under \<open>logWriterKey\<close>.
\<close>

record 's "context" =
  ctxErr :: "'s \<Rightarrow> error option"
  selectDoneOrAfter :: "duration \<Rightarrow> 's \<Rightarrow> bool \<times> 's"
  logWriterValue :: "'s LogWriter option"

type_synonym 's TaskHandler = "'s context \<Rightarrow> string \<Rightarrow> 's \<Rightarrow> error option result \<times> 's"

type_synonym 's Middleware = "'s TaskHandler \<Rightarrow> 's TaskHandler"

section \<open>middleware.go\<close>

subsection \<open>\<open>Chain\<close> and \<open>applyMiddlewares\<close>\<close>

text \<open>The loop \<open>for i := len(middlewares) - 1; i >= 0; i--\<close> of \<open>Chain\<close>.\<close>

function ChainLoop :: "'s Middleware list \<Rightarrow> int \<Rightarrow> 's TaskHandler \<Rightarrow> 's TaskHandler" where
  "ChainLoop middlewares i next =
     (if 0 \<le> i then ChainLoop middlewares (i - 1) ((middlewares ! nat i) next) else next)"
  by pat_completeness auto
termination
  by (relation "measure (\<lambda>(middlewares, i, next). nat (i + 1))") auto

definition Chain :: "'s Middleware list \<Rightarrow> 's Middleware" where
  "Chain middlewares = (\<lambda>next. ChainLoop middlewares (int (length middlewares) - 1) next)"

definition applyMiddlewares :: "'s TaskHandler \<Rightarrow> 's Middleware list \<Rightarrow> 's TaskHandler" where
  "applyMiddlewares handler middlewares =
     (if length middlewares = 0 then handler else Chain middlewares handler)"

text \<open>The nesting \<open>m1(m2(...mn(h)...))\<close> that the specification names.\<close>

fun nested :: "'s Middleware list \<Rightarrow> 's TaskHandler \<Rightarrow> 's TaskHandler" where
  "nested [] h = h"
| "nested (m # ms) h = m (nested ms h)"

subsection \<open>\<open>RecoveryMiddleware\<close>\<close>

text \<open>
  The deferred function recovers a panic of the wrapped handler and sets the named
  result: the panic value itself when it is an error, a \<open>panicError\<close> holding it
  otherwise.
\<close>

definition RecoveryMiddleware :: "'s Middleware" where
  "RecoveryMiddleware next = (\<lambda>ctx param s.
     case next ctx param s of
       (Returns err, s') \<Rightarrow> (Returns err, s')
     | (Panics r, s') \<Rightarrow>
         (case r of
            PanicError e \<Rightarrow> (Returns (Some e), s')
          | PanicValue v \<Rightarrow> (Returns (Some (panicError v)), s')))"

subsection \<open>\<open>RetryMiddleware\<close>\<close>

text \<open>
  What one run of the retry loop does, in order: the calls of the wrapped handler with
  their outcomes, what \<open>ctx.Err()\<close> answered after a failed call, the waits that the
  timer ended, and a wait that the context cut short.
\<close>

datatype event =
    Attempt "error option result"
  | Checked "error option"
  | Waited duration
  | Interrupted duration

text \<open>
  The loop \<open>for i := 0; i <= maxRetries; i++\<close> with its variables \<open>backoff\<close> and
  \<open>lastErr\<close>. \<open>backoff\<close> is a \<open>time.Duration\<close>, a 64-bit integer, and \<open>backoff *= 2\<close>
  wraps around. The counter \<open>i\<close> is an unbounded integer here: it cannot overflow
  before 2^63 attempts have failed.
\<close>

function retryLoop ::
  "int \<Rightarrow> 's TaskHandler \<Rightarrow> 's context \<Rightarrow> string \<Rightarrow> int \<Rightarrow> duration \<Rightarrow> error option \<Rightarrow> 's
     \<Rightarrow> event list \<Rightarrow> error option result \<times> 's \<times> event list" where
  "retryLoop maxRetries next ctx param i backoff lastErr s tr =
     (if \<not> i \<le> maxRetries then (Returns lastErr, s, tr)
      else if 0 < i \<and> fst (selectDoneOrAfter ctx backoff s)
        then (Returns (ctxErr ctx (snd (selectDoneOrAfter ctx backoff s))),
              snd (selectDoneOrAfter ctx backoff s), tr @ [Interrupted backoff])
      else
        let s1 = (if 0 < i then snd (selectDoneOrAfter ctx backoff s) else s);
            tr1 = (if 0 < i then tr @ [Waited backoff] else tr);
            backoff1 = (if 0 < i then backoff * 2 else backoff);
            r = fst (next ctx param s1);
            s2 = snd (next ctx param s1)
        in case r of
             Panics v \<Rightarrow> (Panics v, s2, tr1 @ [Attempt r])
           | Returns None \<Rightarrow> (Returns None, s2, tr1 @ [Attempt r])
           | Returns (Some err) \<Rightarrow>
               if ctxErr ctx s2 \<noteq> None
               then (Returns (ctxErr ctx s2), s2, tr1 @ [Attempt r, Checked (ctxErr ctx s2)])
               else retryLoop maxRetries next ctx param (i + 1) backoff1 (Some err) s2
                      (tr1 @ [Attempt r, Checked (ctxErr ctx s2)]))"
  by pat_completeness auto
termination
  by (relation "measure (\<lambda>(maxRetries, next, ctx, param, i, backoff, lastErr, s, tr).
                   nat (maxRetries + 1 - i))") auto

definition RetryMiddleware :: "int \<Rightarrow> duration \<Rightarrow> 's Middleware" where
  "RetryMiddleware maxRetries backoff next = (\<lambda>ctx param s.
     case retryLoop maxRetries next ctx param 0 backoff None s [] of
       (r, s', tr) \<Rightarrow> (r, s'))"

text \<open>The events of one call of the handler that \<open>RetryMiddleware\<close> returns.\<close>

definition retryEvents ::
  "int \<Rightarrow> duration \<Rightarrow> 's TaskHandler \<Rightarrow> 's context \<Rightarrow> string \<Rightarrow> 's \<Rightarrow> event list" where
  "retryEvents maxRetries backoff next ctx param s =
     snd (snd (retryLoop maxRetries next ctx param 0 backoff None s []))"




text \<open>
  \<open>TimeoutMiddleware\<close> runs the handler in a goroutine and races it against the
  deadline; it is outside this development.
\<close>

text \<open>
  The events that end a run at once, and the outcome the run then has: a successful
  attempt, and a cancellation seen after a failed attempt.
\<close>

fun terminal :: "event \<Rightarrow> bool" where
  "terminal (Attempt (Returns None)) = True"
| "terminal (Checked (Some ce)) = True"
| "terminal e = False"

fun outcomeOf :: "event \<Rightarrow> error option result" where
  "outcomeOf (Attempt r) = r"
| "outcomeOf (Checked c) = Returns c"
| "outcomeOf e = Returns None"

subsection \<open>Concrete handlers and contexts\<close>

text \<open>
  The state of these runs counts the calls of the handler. \<open>liveCtx\<close> is never
  cancelled; \<open>cancelledAfter k\<close> is cancelled from the \<open>k\<close>-th call of the handler on.
\<close>

definition liveCtx :: "nat context" where
  "liveCtx = \<lparr>ctxErr = (\<lambda>n. None), selectDoneOrAfter = (\<lambda>d n. (False, n)),
               logWriterValue = None\<rparr>"

definition cancelledAfter :: "nat \<Rightarrow> nat context" where
  "cancelledAfter k = \<lparr>ctxErr = (\<lambda>n. if k \<le> n then Some Canceled else None),
                        selectDoneOrAfter = (\<lambda>d n. (k \<le> n, n)),
                        logWriterValue = None\<rparr>"

definition failingHandler :: "nat TaskHandler" where
  "failingHandler ctx param n =
     (Returns (Some (errorString (if n = 0 then ''first failure''
                                  else if n = 1 then ''second failure''
                                  else ''later failure''))), Suc n)"

definition panickingHandler :: "nat TaskHandler" where
  "panickingHandler ctx param n = (Panics (PanicValue ''boom''), Suc n)"


section \<open>trace.go: \<open>executeTaskWithTrace\<close>\<close>

text \<open>
  The span, the structured log and the metrics are sinks of other packages. What the
  function sends them is kept as data and handed to \<open>emit\<close>; durations are in
  nanoseconds.
\<close>

datatype attr = AString string | AInt int | AError error

datatype spanCode = codesOk | codesError

datatype telemetry =
    SpanStart string "(string \<times> attr) list"
  | SpanEnd
  | SpanSetStatus spanCode string
  | SpanRecordError error
  | SpanSetAttributes "(string \<times> attr) list"
  | LogRecord string string "(string \<times> attr) list"
  | CounterInc string "string list"
  | HistogramObserve string "string list" int

text \<open>
  What the package asks of its surroundings: the clock, \<open>metrics.IsEnabled()\<close>, the
  sinks, and the creation of the log writer of an invocation (\<open>newLogWriter\<close>, which
  opens the file of the invocation under the log path).
\<close>

record 's env =
  timeNow :: "'s \<Rightarrow> int"
  metricsIsEnabled :: "'s \<Rightarrow> bool"
  emit :: "telemetry \<Rightarrow> 's \<Rightarrow> 's"
  newLogWriter :: "string \<Rightarrow> int \<Rightarrow> 's \<Rightarrow> (error + 's LogWriter) \<times> 's"

definition executeTaskWithTrace ::
  "'s env \<Rightarrow> 's context \<Rightarrow> string \<Rightarrow> string \<Rightarrow> int \<Rightarrow> 's TaskHandler \<Rightarrow> bool \<Rightarrow> 's
     \<Rightarrow> (string \<times> error option) result \<times> 's" where
  "executeTaskWithTrace env ctx taskName param logID handler enableTrace s0 =
     (let startTime = timeNow env s0;
          s1 = (if enableTrace
                then emit env (SpanStart ''xxljob.task.execute''
                       [(''xxljob.task.name'', AString taskName),
                        (''xxljob.task.param'', AString param),
                        (''xxljob.log.id'', AInt logID)]) s0
                else s0);
          logWriter = logWriterValue ctx;
          s2 = (case logWriter of
                  Some w \<Rightarrow> Write w (TaskStartedLine taskName param) s1
                | None \<Rightarrow> s1);
          s3 = emit env (LogRecord ''info'' ''XXL-JOB task started''
                 [(''task_name'', AString taskName), (''param'', AString param),
                  (''log_id'', AInt logID)]) s2;
          r = fst (handler ctx param s3);
          s4 = snd (handler ctx param s3)
      in case r of
           Panics v \<Rightarrow> (Panics v, if enableTrace then emit env SpanEnd s4 else s4)
         | Returns err \<Rightarrow>
             let duration = timeNow env s4 - startTime;
                 s5 = (if metricsIsEnabled env s4
                       then emit env (HistogramObserve ''XXLJobTaskDuration'' [taskName] duration)
                              (emit env (CounterInc ''XXLJobTaskTotal''
                                 [taskName, if err \<noteq> None then ''error'' else ''success'']) s4)
                       else s4);
                 result = (case err of
                             Some e \<Rightarrow> ''FAIL: '' @ Error e
                           | None \<Rightarrow> ''SUCCESS'');
                 s6 = (case err of
                         Some e \<Rightarrow>
                           let t1 = (case logWriter of
                                       Some w \<Rightarrow> Write w (TaskFailedLine taskName duration e) s5
                                     | None \<Rightarrow> s5);
                               t2 = emit env (LogRecord ''error'' ''XXL-JOB task failed''
                                      [(''task_name'', AString taskName), (''param'', AString param),
                                       (''log_id'', AInt logID), (''duration'', AInt duration),
                                       (''error'', AError e)]) t1
                           in if enableTrace
                              then emit env (SpanSetAttributes
                                       [(''xxljob.task.status'', AString ''failed''),
                                        (''xxljob.task.error'', AString (Error e))])
                                     (emit env (SpanRecordError e)
                                        (emit env (SpanSetStatus codesError (Error e)) t2))
                              else t2
                       | None \<Rightarrow>
                           let t1 = (case logWriter of
                                       Some w \<Rightarrow> Write w (TaskCompletedLine taskName duration) s5
                                     | None \<Rightarrow> s5);
                               t2 = emit env (LogRecord ''info'' ''XXL-JOB task completed''
                                      [(''task_name'', AString taskName), (''param'', AString param),
                                       (''log_id'', AInt logID), (''duration'', AInt duration)]) t1
                           in if enableTrace
                              then emit env (SpanSetAttributes
                                       [(''xxljob.task.status'', AString ''success''),
                                        (''xxljob.task.duration_ms'', AInt (duration div 1000000))])
                                     (emit env (SpanSetStatus codesOk []) t2)
                              else t2)
             in (Returns (result, None), if enableTrace then emit env SpanEnd s6 else s6))"

text \<open>The state in which \<open>executeTaskWithTrace\<close> calls the handler.\<close>

definition taskEntryState ::
  "'s env \<Rightarrow> 's context \<Rightarrow> string \<Rightarrow> string \<Rightarrow> int \<Rightarrow> bool \<Rightarrow> 's \<Rightarrow> 's" where
  "taskEntryState env ctx taskName param logID enableTrace s0 =
     emit env (LogRecord ''info'' ''XXL-JOB task started''
        [(''task_name'', AString taskName), (''param'', AString param),
         (''log_id'', AInt logID)])
       ((case logWriterValue ctx of
           Some w \<Rightarrow> Write w (TaskStartedLine taskName param)
         | None \<Rightarrow> (\<lambda>s. s))
          (if enableTrace
           then emit env (SpanStart ''xxljob.task.execute''
                  [(''xxljob.task.name'', AString taskName),
                   (''xxljob.task.param'', AString param),
                   (''xxljob.log.id'', AInt logID)]) s0
           else s0))"

section \<open>options.go, task.go and the executor\<close>

record 's executorOptions =
  serverAddr :: string
  accessToken :: string
  executorIP :: string
  executorPort :: string
  registryKey :: string
  logPath :: string
  logRetentionDays :: int
  enableTrace :: bool
  quietMode :: bool
  middlewares :: "'s Middleware list"

definition NewOptions :: "'s executorOptions" where
  "NewOptions = \<lparr>serverAddr = [], accessToken = [], executorIP = [], executorPort = ''9999'',
                  registryKey = [], logPath = [], logRetentionDays = 30, enableTrace = False,
                  quietMode = False, middlewares = []\<rparr>"

definition Validate :: "'s executorOptions \<Rightarrow> error option" where
  "Validate opt =
     (if serverAddr opt = [] then Some (errorString ''server address is required'')
      else if registryKey opt = [] then Some (errorString ''registry key is required'')
      else if executorPort opt = [] then Some (errorString ''executor port is required'')
      else None)"

record 's TaskInfo =
  Name :: string
  Handler :: "'s TaskHandler"
  RegisteredAt :: int

text \<open>
  The registry's table, in the order of registration. A handler is a function here, so
  the check for a \<open>nil\<close> handler has no counterpart.
\<close>

type_synonym 's TaskRegistry = "(string \<times> 's TaskInfo) list"

definition Register ::
  "'s TaskRegistry \<Rightarrow> string \<Rightarrow> 's TaskHandler \<Rightarrow> int \<Rightarrow> error option \<times> 's TaskRegistry" where
  "Register r name handler now =
     (if name = [] then (Some (errorString ''task name cannot be empty''), r)
      else if map_of r name \<noteq> None
        then (Some (errorString (''task '' @ name @ '' already registered'')), r)
      else (None, r @ [(name, \<lparr>Name = name, Handler = handler, RegisteredAt = now\<rparr>)]))"

definition Count :: "'s TaskRegistry \<Rightarrow> int" where
  "Count r = int (length r)"

text \<open>
  The executor. \<open>regList\<close> is the table of the SDK's executor: \<open>RegTask\<close> hands it, under
  the task's name, a function that holds the wrapped handler; that function is
  \<open>taskFunc\<close> below.
\<close>

record 's executorImpl =
  opts :: "'s executorOptions"
  registry :: "'s TaskRegistry"
  regList :: "(string \<times> 's TaskHandler) list"
  running :: bool
  startedAt :: int
  lastError :: "error option"

record HealthStatus =
  Running :: bool
  TaskCount :: int
  StartedAt :: int
  LastError :: "error option"

definition NewExecutorWithOptions :: "'s executorOptions \<Rightarrow> error + 's executorImpl" where
  "NewExecutorWithOptions options =
     (case Validate options of
        Some err \<Rightarrow> Inl (wrapError ''invalid options: '' err)
      | None \<Rightarrow> Inr \<lparr>opts = options, registry = [], regList = [], running = False,
                      startedAt = 0, lastError = None\<rparr>)"

definition RegTask ::
  "'s env \<Rightarrow> 's executorImpl \<Rightarrow> string \<Rightarrow> 's TaskHandler \<Rightarrow> 's \<Rightarrow> error option \<times> 's executorImpl" where
  "RegTask env e taskName handler s =
     (if running e then (Some (errorString ''cannot register task after executor started''), e)
      else
        let wrappedHandler = applyMiddlewares handler (middlewares (opts e))
        in case Register (registry e) taskName wrappedHandler (timeNow env s) of
             (Some err, r) \<Rightarrow> (Some (wrapError ''failed to register task: '' err), e)
           | (None, r) \<Rightarrow>
               (None, e\<lparr>registry := r, regList := regList e @ [(taskName, wrappedHandler)]\<rparr>))"

text \<open>The two fields of the SDK's \<open>RunReq\<close> that the package reads.\<close>

record RunReq =
  ExecutorParams :: string
  LogID :: int

text \<open>
  The function that \<open>RegTask\<close> registers with the SDK, for the task \<open>taskName\<close> and its
  wrapped handler. It runs on the executor \<open>e\<close> it was created by, whose \<open>lastError\<close> it
  may set, and on the world.
\<close>

definition taskFunc ::
  "'s env \<Rightarrow> string \<Rightarrow> 's TaskHandler \<Rightarrow> 's context \<Rightarrow> RunReq option \<Rightarrow> 's executorImpl \<times> 's
     \<Rightarrow> string result \<times> 's executorImpl \<times> 's" where
  "taskFunc env taskName wrappedHandler ctx param = (\<lambda>(e, s0).
     let paramStr = (case param of
                       Some p \<Rightarrow> (if ExecutorParams p \<noteq> [] then ExecutorParams p else [])
                     | None \<Rightarrow> []);
         logID = (case param of Some p \<Rightarrow> LogID p | None \<Rightarrow> 0);
         created = (if logPath (opts e) \<noteq> [] \<and> 0 < logID
                    then (case newLogWriter env (logPath (opts e)) logID s0 of
                            (Inr w, s) \<Rightarrow> (Some w, s)
                          | (Inl logErr, s) \<Rightarrow>
                              (None, emit env (LogRecord ''warn'' ''Failed to create log writer''
                                       [(''log_id'', AInt logID), (''error'', AError logErr)]) s))
                    else (None, s0));
         writer = fst created;
         s1 = snd created;
         ctx1 = (case writer of Some w \<Rightarrow> ctx\<lparr>logWriterValue := Some w\<rparr> | None \<Rightarrow> ctx);
         ran = executeTaskWithTrace env ctx1 taskName paramStr logID wrappedHandler
                 (enableTrace (opts e)) s1;
         closeWriter = (\<lambda>s. case writer of
                          None \<Rightarrow> s
                        | Some w \<Rightarrow>
                            (case Close w s of
                               (None, s') \<Rightarrow> s'
                             | (Some closeErr, s') \<Rightarrow>
                                 emit env (LogRecord ''warn'' ''Failed to close log writer''
                                    [(''log_id'', AInt logID), (''error'', AError closeErr)]) s'))
     in case fst ran of
          Panics v \<Rightarrow> (Panics v, e, closeWriter (snd ran))
        | Returns (result, err) \<Rightarrow>
            (Returns result,
             (case err of Some x \<Rightarrow> e\<lparr>lastError := Some x\<rparr> | None \<Rightarrow> e),
             closeWriter (snd ran)))"

text \<open>The SDK runs a task: it calls the function registered under the task's name.\<close>

definition runTask ::
  "'s env \<Rightarrow> 's executorImpl \<Rightarrow> string \<Rightarrow> 's context \<Rightarrow> RunReq option \<Rightarrow> 's
     \<Rightarrow> (string result \<times> 's executorImpl \<times> 's) option" where
  "runTask env e taskName ctx param s =
     (case map_of (regList e) taskName of
        None \<Rightarrow> None
      | Some wrappedHandler \<Rightarrow> Some (taskFunc env taskName wrappedHandler ctx param (e, s)))"

definition GetHealthStatus :: "'s executorImpl \<Rightarrow> HealthStatus" where
  "GetHealthStatus e =
     \<lparr>Running = running e, TaskCount = Count (registry e), StartedAt = startedAt e,
      LastError = lastError e\<rparr>"

subsection \<open>A concrete executor\<close>

text \<open>
  Surroundings that keep nothing: the clock shows the number of handler calls, metrics
  are off, the sinks drop what they get and no log file can be created.
\<close>

definition quietEnv :: "nat env" where
  "quietEnv = \<lparr>timeNow = (\<lambda>n. int n), metricsIsEnabled = (\<lambda>n. False), emit = (\<lambda>t n. n),
                newLogWriter = (\<lambda>path logID n. (Inl (errorString ''failed to open log file''), n))\<rparr>"

definition succeedingHandler :: "nat TaskHandler" where
  "succeedingHandler ctx param n = (Returns None, Suc n)"

definition demoOptions :: "nat executorOptions" where
  "demoOptions = NewOptions\<lparr>serverAddr := ''http://localhost:8080/xxl-job-admin'',
                            registryKey := ''my-executor''\<rparr>"

text \<open>The executor built from \<open>demoOptions\<close>, with the failing handler registered as \<open>job\<close>.\<close>

definition demoExecutor :: "nat executorImpl" where
  "demoExecutor =
     (case NewExecutorWithOptions demoOptions of
        Inr e \<Rightarrow> snd (RegTask quietEnv e ''job'' failingHandler 0)
      | Inl err \<Rightarrow> \<lparr>opts = demoOptions, registry = [], regList = [], running = False,
                      startedAt = 0, lastError = None\<rparr>)"


section \<open>Properties of the log reader\<close>

subsection \<open>The loop, in terms of the lines the scanner delivers\<close>

declare scanRest.simps [simp del]
declare readLoop.simps [simp del]

lemma scanRest_stop: "\<not> fst (Scan sc) \<Longrightarrow> scanRest sc = ([], scanErr (snd (Scan sc)))"
  by (subst scanRest.simps) simp

lemma scanRest_step:
  "fst (Scan sc) \<Longrightarrow>
     scanRest sc = (token (snd (Scan sc)) # fst (scanRest (snd (Scan sc))),
                    snd (scanRest (snd (Scan sc))))"
  by (subst scanRest.simps) simp

lemma Scan_ok_scanErr: "fst (Scan sc) \<Longrightarrow> scanErr (snd (Scan sc)) = None \<and> scanErr sc = None"
  by (auto simp: Scan_def Let_def split: if_splits)

lemma readLoop_lines:
  "int (length L) < p \<Longrightarrow>
     fst (snd (readLoop start p sc L i t)) =
       L @ take (nat (p - int (length L))) (drop (nat (start - (i + 1))) (fst (scanRest sc)))"
proof (induction start p sc L i t rule: readLoop.induct)
  case (1 start p sc L i t)
  show ?case
  proof (cases "fst (Scan sc)")
    case False
    then show ?thesis
      by (subst readLoop.simps) (simp add: scanRest_stop)
  next
    case ok: True
    show ?thesis
    proof (cases "i + 1 < start")
      case True
      then have d: "nat (start - (i + 1)) = Suc (nat (start - (i + 1 + 1)))" by simp
      from "1.IH"(1) [OF _ True] ok "1.prems"
      show ?thesis
        by (subst readLoop.simps) (simp add: scanRest_step [OF ok] True d del: nat_diff_distrib)
    next
      case nskip: False
      then have d0: "nat (start - (i + 1)) = 0" "nat (start - (i + 1 + 1)) = 0"
        "nat (start - (2 + i)) = 0" by simp_all
      show ?thesis
      proof (cases "p \<le> int (length (L @ [token (snd (Scan sc))]))")
        case True
        with "1.prems" have "nat (p - int (length L)) = Suc 0" by simp
        with ok nskip True show ?thesis
          by (subst readLoop.simps) (simp add: scanRest_step [OF ok] d0)
      next
        case False
        then have n: "nat (p - int (length L)) = Suc (nat (p - int (length (L @ [token (snd (Scan sc))]))))"
          by simp
        from False have "int (length (L @ [token (snd (Scan sc))])) < p" by simp
        from "1.IH"(2) [OF _ nskip False this] ok False "1.prems"
        show ?thesis
          by (subst readLoop.simps) (simp add: scanRest_step [OF ok] nskip False d0 n)
      qed
    qed
  qed
qed


lemma readLoop_lineIndex:
  "int (length L) < p \<Longrightarrow>
     fst (snd (snd (readLoop start p sc L i t))) =
       (if nat (p - int (length L)) \<le> length (drop (nat (start - (i + 1))) (fst (scanRest sc)))
        then i + int (nat (start - (i + 1))) + (p - int (length L))
        else i + int (length (fst (scanRest sc))))"
proof (induction start p sc L i t rule: readLoop.induct)
  case (1 start p sc L i t)
  show ?case
  proof (cases "fst (Scan sc)")
    case False
    with "1.prems" show ?thesis
      by (subst readLoop.simps) (simp add: scanRest_stop)
  next
    case ok: True
    show ?thesis
    proof (cases "i + 1 < start")
      case True
      then have d: "nat (start - (i + 1)) = Suc (nat (start - (i + 1 + 1)))" by simp
      from "1.IH"(1) [OF _ True] ok "1.prems"
      show ?thesis
        by (subst readLoop.simps) (simp add: scanRest_step [OF ok] True d del: nat_diff_distrib)
    next
      case nskip: False
      then have d0: "nat (start - (i + 1)) = 0" "nat (start - (i + 1 + 1)) = 0"
        "nat (start - (2 + i)) = 0" by simp_all
      show ?thesis
      proof (cases "p \<le> int (length (L @ [token (snd (Scan sc))]))")
        case True
        with "1.prems" have "nat (p - int (length L)) = Suc 0" "p - int (length L) = 1" by simp_all
        with ok nskip True show ?thesis
          by (subst readLoop.simps) (simp add: scanRest_step [OF ok] d0)
      next
        case False
        then have n: "nat (p - int (length L)) = Suc (nat (p - int (length (L @ [token (snd (Scan sc))]))))"
          by simp
        from False have "int (length (L @ [token (snd (Scan sc))])) < p" by simp
        from "1.IH"(2) [OF _ nskip False this] ok False "1.prems"
        show ?thesis
          by (subst readLoop.simps) (simp add: scanRest_step [OF ok] nskip False d0 n)
      qed
    qed
  qed
qed

lemma readLoop_toLineNum:
  "int (length L) < p \<Longrightarrow>
     snd (snd (snd (readLoop start p sc L i t))) =
       (if drop (nat (start - (i + 1))) (fst (scanRest sc)) = [] then t
        else fst (snd (snd (readLoop start p sc L i t))))"
proof (induction start p sc L i t rule: readLoop.induct)
  case (1 start p sc L i t)
  show ?case
  proof (cases "fst (Scan sc)")
    case False
    with "1.prems" show ?thesis
      by (subst (1 2) readLoop.simps) (simp add: scanRest_stop)
  next
    case ok: True
    show ?thesis
    proof (cases "i + 1 < start")
      case True
      then have d: "nat (start - (i + 1)) = Suc (nat (start - (i + 1 + 1)))" by simp
      from "1.IH"(1) [OF _ True] ok "1.prems"
      show ?thesis
        by (subst (1 2) readLoop.simps) (simp add: scanRest_step [OF ok] True d del: nat_diff_distrib)
    next
      case nskip: False
      then have d0: "nat (start - (i + 1)) = 0" "nat (start - (i + 1 + 1)) = 0"
        "nat (start - (2 + i)) = 0" by simp_all
      show ?thesis
      proof (cases "p \<le> int (length (L @ [token (snd (Scan sc))]))")
        case True
        with ok nskip True show ?thesis
          by (subst (1 2) readLoop.simps) (simp add: scanRest_step [OF ok] d0)
      next
        case False
        from False have lt: "int (length (L @ [token (snd (Scan sc))])) < p" by simp
        have li: "fst (snd (snd (readLoop start p (snd (Scan sc)) (L @ [token (snd (Scan sc))]) (i + 1) (i + 1))))
           = (if nat (p - int (length (L @ [token (snd (Scan sc))]))) \<le> length (fst (scanRest (snd (Scan sc))))
              then i + 1 + (p - int (length (L @ [token (snd (Scan sc))])))
              else i + 1 + int (length (fst (scanRest (snd (Scan sc))))))"
          using readLoop_lineIndex [OF lt, of start "snd (Scan sc)" "i + 1" "i + 1"] by (simp add: d0)
        from "1.IH"(2) [OF _ nskip False lt] ok False li
        show ?thesis
          by (subst (1 2) readLoop.simps) (auto simp add: scanRest_step [OF ok] nskip d0)
      qed
    qed
  qed
qed

lemma readLoop_scanErr:
  "int (length L) < p \<Longrightarrow> scanErr sc = None \<Longrightarrow>
     scanErr (fst (readLoop start p sc L i t)) =
       (if nat (p - int (length L)) \<le> length (drop (nat (start - (i + 1))) (fst (scanRest sc)))
        then None else snd (scanRest sc))"
proof (induction start p sc L i t rule: readLoop.induct)
  case (1 start p sc L i t)
  show ?case
  proof (cases "fst (Scan sc)")
    case False
    with "1.prems" show ?thesis
      by (subst readLoop.simps) (simp add: scanRest_stop)
  next
    case ok: True
    note e = Scan_ok_scanErr [OF ok]
    show ?thesis
    proof (cases "i + 1 < start")
      case True
      then have d: "nat (start - (i + 1)) = Suc (nat (start - (i + 1 + 1)))" by simp
      from "1.IH"(1) [OF _ True] ok "1.prems" e
      show ?thesis
        by (subst readLoop.simps) (simp add: scanRest_step [OF ok] True d del: nat_diff_distrib)
    next
      case nskip: False
      then have d0: "nat (start - (i + 1)) = 0" "nat (start - (i + 1 + 1)) = 0"
        "nat (start - (2 + i)) = 0" by simp_all
      show ?thesis
      proof (cases "p \<le> int (length (L @ [token (snd (Scan sc))]))")
        case True
        with "1.prems" have "nat (p - int (length L)) = Suc 0" by simp
        with ok nskip True e show ?thesis
          by (subst readLoop.simps) (simp add: scanRest_step [OF ok] d0)
      next
        case False
        then have n: "nat (p - int (length L)) = Suc (nat (p - int (length (L @ [token (snd (Scan sc))]))))"
          by simp
        from False have "int (length (L @ [token (snd (Scan sc))])) < p" by simp
        from "1.IH"(2) [OF _ nskip False this] ok e False "1.prems"
        show ?thesis
          by (subst readLoop.simps) (simp add: scanRest_step [OF ok] nskip False d0 n)
      qed
    qed
  qed
qed


subsection \<open>The result for a file with given lines\<close>

lemma Join_unlines: "Join ls [NL] @ (if 0 < length ls then [NL] else []) = unlines ls"
  by (induction ls "[NL]" rule: Join.induct) (simp_all add: unlines_def)

lemma fileLines_File:
  "fileLines f = Some T \<Longrightarrow>
     \<exists>bytes. f = File bytes None \<and> scanRest (Buffer (NewScanner bytes) (1024 * 1024)) = (T, None)"
  by (auto simp: fileLines_def split: fileEntry.splits option.splits prod.splits)

lemma scanRest_empty_iff:
  assumes "scanRest (Buffer (NewScanner bytes) m) = (T, None)"
  shows "T = [] \<longleftrightarrow> bytes = []"
proof (cases "fst (Scan (Buffer (NewScanner bytes) m))")
  case True
  then have "bytes \<noteq> []" by (auto simp: Scan_def NewScanner_def Buffer_def split: if_splits)
  moreover from scanRest_step [OF True] assms have "T \<noteq> []" by auto
  ultimately show ?thesis by simp
next
  case False
  from scanRest_stop [OF False] assms
  have "T = []" and "scanErr (snd (Scan (Buffer (NewScanner bytes) m))) = None" by auto
  with False have "bytes = []"
    by (auto simp: Scan_def NewScanner_def Buffer_def Let_def split: if_splits)
  with \<open>T = []\<close> show ?thesis by simp
qed

lemma read_empty:
  assumes "fileLines (fs path) = Some []"
  shows "readLogFileWithPagination fs path fromLineNum pageSize =
           Inr \<lparr>Content = [], ToLineNum = startLine fromLineNum, IsEnd = True\<rparr>"
proof -
  from fileLines_File [OF assms] obtain bytes where
    f: "fs path = File bytes None" and
    sr: "scanRest (Buffer (NewScanner bytes) (1024 * 1024)) = ([], None)" by blast
  from scanRest_empty_iff [OF sr] have "bytes = []" by simp
  with f show ?thesis
    by (simp add: readLogFileWithPagination_def startLine_def)
qed


lemma read_unfold:
  assumes f: "fs path = File bytes None" and bne: "bytes \<noteq> []"
  shows "readLogFileWithPagination fs path fromLineNum pageSize =
      (case scanErr (fst (readLoop (startLine fromLineNum) (effectivePageSize pageSize)
                      (Buffer (NewScanner bytes) (1024 * 1024)) [] (- 1) (startLine fromLineNum))) of
         Some err \<Rightarrow> Inl (wrapError ''failed to scan log file: '' err)
       | None \<Rightarrow>
          (if fst (snd (snd (readLoop (startLine fromLineNum) (effectivePageSize pageSize)
                      (Buffer (NewScanner bytes) (1024 * 1024)) [] (- 1) (startLine fromLineNum))))
                < startLine fromLineNum
           then Inr \<lparr>Content = [],
                 ToLineNum = (if fst (snd (snd (readLoop (startLine fromLineNum) (effectivePageSize pageSize)
                      (Buffer (NewScanner bytes) (1024 * 1024)) [] (- 1) (startLine fromLineNum)))) < 0 then 0
                     else fst (snd (snd (readLoop (startLine fromLineNum) (effectivePageSize pageSize)
                      (Buffer (NewScanner bytes) (1024 * 1024)) [] (- 1) (startLine fromLineNum))))),
                 IsEnd = True\<rparr>
           else Inr \<lparr>Content = unlines (fst (snd (readLoop (startLine fromLineNum) (effectivePageSize pageSize)
                      (Buffer (NewScanner bytes) (1024 * 1024)) [] (- 1) (startLine fromLineNum)))),
                 ToLineNum = snd (snd (snd (readLoop (startLine fromLineNum) (effectivePageSize pageSize)
                      (Buffer (NewScanner bytes) (1024 * 1024)) [] (- 1) (startLine fromLineNum)))),
                 IsEnd = (int (length (fst (snd (readLoop (startLine fromLineNum) (effectivePageSize pageSize)
                      (Buffer (NewScanner bytes) (1024 * 1024)) [] (- 1) (startLine fromLineNum)))))
                          < effectivePageSize pageSize)\<rparr>))"
proof -
  have eff: "(if (if maxLogFileSize < int (length bytes) \<and> pageSize \<le> 0
                  then defaultLogPageSize else pageSize) \<le> 0
              then defaultLogPageSize
              else (if maxLogFileSize < int (length bytes) \<and> pageSize \<le> 0
                    then defaultLogPageSize else pageSize)) = effectivePageSize pageSize"
    by (simp add: effectivePageSize_def)
  have start: "(if fromLineNum < 0 then 0 else fromLineNum) = startLine fromLineNum"
    by (simp add: startLine_def)
  from bne have sz: "int (length bytes) \<noteq> 0" by simp
  show ?thesis
    unfolding readLogFileWithPagination_def Let_def f fileEntry.case case_prod_beta eff start
      Join_unlines
    using sz by (simp split del: if_split cong: if_cong option.case_cong)
qed

lemma read_nonempty:
  assumes fl: "fileLines (fs path) = Some T" and ne: "T \<noteq> []"
  shows "readLogFileWithPagination fs path fromLineNum pageSize =
           Inr (if int (length T) \<le> startLine fromLineNum
                then \<lparr>Content = [], ToLineNum = int (length T) - 1, IsEnd = True\<rparr>
                else \<lparr>Content = unlines (take (nat (effectivePageSize pageSize))
                                          (drop (nat (startLine fromLineNum)) T)),
                      ToLineNum =
                        (if effectivePageSize pageSize \<le> int (length T) - startLine fromLineNum
                         then startLine fromLineNum + effectivePageSize pageSize - 1
                         else int (length T) - 1),
                      IsEnd = (int (length T) - startLine fromLineNum
                                 < effectivePageSize pageSize)\<rparr>)"
proof -
  from fileLines_File [OF fl] obtain bytes where
    f: "fs path = File bytes None" and
    sr: "scanRest (Buffer (NewScanner bytes) (1024 * 1024)) = (T, None)" by blast
  from scanRest_empty_iff [OF sr] ne have bne: "bytes \<noteq> []" by simp
  let ?p = "effectivePageSize pageSize"
  let ?k = "startLine fromLineNum"
  let ?sc = "Buffer (NewScanner bytes) 1048576"
  let ?R = "readLoop ?k ?p ?sc [] (- 1) ?k"
  have p1: "0 < ?p" by (simp add: effectivePageSize_def defaultLogPageSize_def)
  have k0: "0 \<le> ?k" by (simp add: startLine_def)
  have lp: "int (length ([]::string list)) < ?p" using p1 by simp
  have e0: "scanErr ?sc = None" by (simp add: Buffer_def NewScanner_def)
  have srT: "fst (scanRest ?sc) = T" "snd (scanRest ?sc) = None" using sr by simp_all
  have lines: "fst (snd ?R) = take (nat ?p) (drop (nat ?k) T)"
    using readLoop_lines [OF lp, of ?k ?sc "- 1" ?k] srT by simp
  have idx: "fst (snd (snd ?R)) =
      (if nat ?p \<le> length (drop (nat ?k) T) then ?k + ?p - 1 else int (length T) - 1)"
    using readLoop_lineIndex [OF lp, of ?k ?sc "- 1" ?k] k0 srT by simp
  have to: "snd (snd (snd ?R)) = (if drop (nat ?k) T = [] then ?k else fst (snd (snd ?R)))"
    using readLoop_toLineNum [OF lp, of ?k ?sc "- 1" ?k] srT by simp
  have err: "scanErr (fst ?R) = None"
    using readLoop_scanErr [OF lp e0, of ?k "- 1" ?k] srT by simp
  note unfold = read_unfold [of fs path bytes fromLineNum pageSize, OF f bne]
  show ?thesis
  proof (cases "int (length T) \<le> ?k")
    case True
    with ne p1 k0 have "fst (snd (snd ?R)) = int (length T) - 1" "fst (snd (snd ?R)) < ?k"
      "\<not> fst (snd (snd ?R)) < 0"
      by (simp_all add: idx)
    with True err show ?thesis
      by (simp add: unfold)
  next
    case False
    with k0 have dne: "drop (nat ?k) T \<noteq> []" by simp
    from False k0 p1 have nlt: "\<not> fst (snd (snd ?R)) < ?k"
      by (auto simp: idx)
    from False k0 p1 have c: "nat ?p \<le> length T - nat ?k \<longleftrightarrow> ?p \<le> int (length T) - ?k"
      by linarith
    from False k0 p1 have l: "int (min (length T - nat ?k) (nat ?p)) < ?p \<longleftrightarrow> int (length T) - ?k < ?p"
      by linarith
    have idx': "fst (snd (snd ?R)) =
      (if ?p \<le> int (length T) - ?k then ?k + ?p - 1 else int (length T) - 1)"
      using idx c by simp
    from False nlt dne err show ?thesis
      by (simp add: unfold lines to idx' l)
  qed
qed


subsection \<open>The claims about pagination\<close>

text \<open>
  C2 (amended). For a log file with \<open>N \<ge> 1\<close> lines and a page size \<open>pageSize \<ge> N\<close>,
  reading from line 0 returns all \<open>N\<close> lines and \<open>ToLineNum = N - 1\<close>; \<open>IsEnd\<close> is true
  exactly when \<open>pageSize > N\<close>. At the boundary \<open>pageSize = N\<close> the page is full and
  \<open>IsEnd\<close> is false.
\<close>

theorem readLog_whole_file:
  assumes "fileLines (fs filePath) = Some T" and "T \<noteq> []" and "int (length T) \<le> pageSize"
  shows "readLogFileWithPagination fs filePath 0 pageSize =
           Inr \<lparr>Content = unlines T, ToLineNum = int (length T) - 1,
                 IsEnd = (int (length T) < pageSize)\<rparr>"
proof -
  from assms have "0 < pageSize" by (cases T) auto
  then have eff: "effectivePageSize pageSize = pageSize" by (simp add: effectivePageSize_def)
  from assms(3) have "length T \<le> nat pageSize" by simp
  then have tk: "take (nat pageSize) T = T" by simp
  from assms(2) have ne: "\<not> int (length T) \<le> 0" by simp
  have st: "startLine 0 = 0" by (simp add: startLine_def)
  note r = read_nonempty [of fs filePath T 0 pageSize, OF assms(1,2), unfolded st eff]
  show ?thesis
    using assms(3) ne tk by (auto simp: r)
qed

theorem readLog_whole_file_witness:
  "fileLines (File (''a'' @ [NL] @ ''b'' @ [NL]) None) = Some [''a'', ''b'']
   \<and> [''a'', ''b''] \<noteq> ([] :: string list)
   \<and> int (length [''a'', ''b'']) \<le> 5
   \<and> readLogFileWithPagination (\<lambda>p. File (''a'' @ [NL] @ ''b'' @ [NL]) None) ''job.log'' 0 5 =
         Inr \<lparr>Content = ''a'' @ [NL] @ ''b'' @ [NL], ToLineNum = 1, IsEnd = True\<rparr>"
proof -
  have h: "fileLines (File (''a'' @ [NL] @ ''b'' @ [NL]) None) = Some [''a'', ''b'']"
    by code_simp
  from readLog_whole_file [of "\<lambda>p. File (''a'' @ [NL] @ ''b'' @ [NL]) None" "''job.log''"
      "[''a'', ''b'']" 5] h
  show ?thesis by (simp add: unlines_def)
qed

text \<open>
  C2 as stated fails at the boundary: a file with the single line \<open>a\<close>, read from
  line 0 with \<open>pageSize = 1\<close>, gives the line and \<open>IsEnd = False\<close>.
\<close>

theorem readLog_boundary_counterexample:
  "fileLines (File (''a'' @ [NL]) None) = Some [''a'']
   \<and> readLogFileWithPagination (\<lambda>p. File (''a'' @ [NL]) None) ''job.log'' 0 1 =
         Inr \<lparr>Content = ''a'' @ [NL], ToLineNum = 0, IsEnd = False\<rparr>"
  by code_simp

text \<open>
  C3. For a non-empty log file with \<open>N\<close> lines, a first line \<open>k\<close> with \<open>0 \<le> k < N\<close> and
  a positive page size \<open>p < N - k\<close>, the reader returns exactly the \<open>p\<close> lines from
  line \<open>k\<close> on and \<open>ToLineNum = k + p - 1\<close>. For every first line and page size,
  \<open>IsEnd\<close> is true if and only if fewer lines were collected than the page size in
  effect.
\<close>

theorem readLog_page:
  assumes "fileLines (fs filePath) = Some T" and "T \<noteq> []"
  shows "(0 \<le> k \<and> k < int (length T) \<and> 0 < p \<and> p < int (length T) - k \<longrightarrow>
            readLogFileWithPagination fs filePath k p =
              Inr \<lparr>Content = unlines (take (nat p) (drop (nat k) T)),
                    ToLineNum = k + p - 1, IsEnd = False\<rparr>
            \<and> length (take (nat p) (drop (nat k) T)) = nat p)
         \<and> (\<exists>r. readLogFileWithPagination fs filePath fromLineNum pageSize = Inr r
               \<and> Content r = unlines (take (nat (effectivePageSize pageSize))
                                         (drop (nat (startLine fromLineNum)) T))
               \<and> IsEnd r = (int (length (take (nat (effectivePageSize pageSize))
                                            (drop (nat (startLine fromLineNum)) T)))
                              < effectivePageSize pageSize))"
proof (intro conjI impI)
  assume h: "0 \<le> k \<and> k < int (length T) \<and> 0 < p \<and> p < int (length T) - k"
  then have eff: "effectivePageSize p = p" and st: "startLine k = k"
    by (simp_all add: effectivePageSize_def startLine_def)
  from h show "readLogFileWithPagination fs filePath k p =
      Inr \<lparr>Content = unlines (take (nat p) (drop (nat k) T)),
            ToLineNum = k + p - 1, IsEnd = False\<rparr>"
    by (simp add: read_nonempty [of fs filePath T, OF assms] eff st)
  from h have "nat p \<le> length T - nat k" by linarith
  then show "length (take (nat p) (drop (nat k) T)) = nat p"
    by simp
next
  let ?p = "effectivePageSize pageSize" and ?k = "startLine fromLineNum"
  have p1: "0 < ?p" by (simp add: effectivePageSize_def defaultLogPageSize_def)
  have k0: "0 \<le> ?k" by (simp add: startLine_def)
  show "\<exists>r. readLogFileWithPagination fs filePath fromLineNum pageSize = Inr r
          \<and> Content r = unlines (take (nat ?p) (drop (nat ?k) T))
          \<and> IsEnd r = (int (length (take (nat ?p) (drop (nat ?k) T))) < ?p)"
  proof (cases "int (length T) \<le> ?k")
    case True
    with k0 have "drop (nat ?k) T = []" by simp
    with True p1 show ?thesis
      by (simp add: read_nonempty [of fs filePath T, OF assms] unlines_def)
  next
    case False
    with k0 p1 have "int (min (length T - nat ?k) (nat ?p)) < ?p \<longleftrightarrow> int (length T) - ?k < ?p"
      by linarith
    with False show ?thesis
      by (simp add: read_nonempty [of fs filePath T, OF assms])
  qed
qed

theorem readLog_page_witness:
  "fileLines (File (''a'' @ [NL] @ ''b'' @ [NL] @ ''c'' @ [NL] @ ''d'') None)
     = Some [''a'', ''b'', ''c'', ''d'']
   \<and> readLogFileWithPagination
         (\<lambda>p. File (''a'' @ [NL] @ ''b'' @ [NL] @ ''c'' @ [NL] @ ''d'') None) ''job.log'' 1 2 =
         Inr \<lparr>Content = ''b'' @ [NL] @ ''c'' @ [NL], ToLineNum = 2, IsEnd = False\<rparr>"
proof -
  have h: "fileLines (File (''a'' @ [NL] @ ''b'' @ [NL] @ ''c'' @ [NL] @ ''d'') None)
             = Some [''a'', ''b'', ''c'', ''d'']"
    by code_simp
  from readLog_page [of "\<lambda>p. File (''a'' @ [NL] @ ''b'' @ [NL] @ ''c'' @ [NL] @ ''d'') None"
      "''job.log''" "[''a'', ''b'', ''c'', ''d'']" 1 2] h
  show ?thesis by (simp add: unlines_def)
qed

text \<open>
  C4. For a log file with \<open>N \<ge> 1\<close> lines and every \<open>fromLineNum \<ge> N\<close> the reader returns
  empty content, \<open>IsEnd = True\<close> and \<open>ToLineNum = N - 1\<close>; for an empty file it returns
  empty content, \<open>IsEnd = True\<close> and \<open>ToLineNum = max fromLineNum 0\<close>.
\<close>

theorem readLog_past_end:
  assumes "fileLines (fs filePath) = Some T"
  shows "(T \<noteq> [] \<and> int (length T) \<le> fromLineNum \<longrightarrow>
            readLogFileWithPagination fs filePath fromLineNum pageSize =
              Inr \<lparr>Content = [], ToLineNum = int (length T) - 1, IsEnd = True\<rparr>)
         \<and> (T = [] \<longrightarrow>
            readLogFileWithPagination fs filePath fromLineNum pageSize =
              Inr \<lparr>Content = [], ToLineNum = max fromLineNum 0, IsEnd = True\<rparr>)"
proof (intro conjI impI)
  assume h: "T \<noteq> [] \<and> int (length T) \<le> fromLineNum"
  then have "startLine fromLineNum = fromLineNum" by (simp add: startLine_def)
  with h show "readLogFileWithPagination fs filePath fromLineNum pageSize =
      Inr \<lparr>Content = [], ToLineNum = int (length T) - 1, IsEnd = True\<rparr>"
    using read_nonempty [of fs filePath T fromLineNum pageSize, OF assms] by simp
next
  assume "T = []"
  with assms have "fileLines (fs filePath) = Some []" by simp
  from read_empty [of fs filePath fromLineNum pageSize, OF this]
  show "readLogFileWithPagination fs filePath fromLineNum pageSize =
      Inr \<lparr>Content = [], ToLineNum = max fromLineNum 0, IsEnd = True\<rparr>"
    by (simp add: startLine_def max_def)
qed

theorem readLog_past_end_witness:
  "fileLines (File (''a'' @ [NL] @ ''b'') None) = Some [''a'', ''b'']
   \<and> readLogFileWithPagination (\<lambda>p. File (''a'' @ [NL] @ ''b'') None) ''job.log'' 2 10 =
         Inr \<lparr>Content = [], ToLineNum = 1, IsEnd = True\<rparr>
   \<and> fileLines (File [] None) = Some []
   \<and> readLogFileWithPagination (\<lambda>p. File [] None) ''job.log'' (- 3) 10 =
         Inr \<lparr>Content = [], ToLineNum = 0, IsEnd = True\<rparr>"
proof -
  have h1: "fileLines (File (''a'' @ [NL] @ ''b'') None) = Some [''a'', ''b'']"
    by code_simp
  have h2: "fileLines (File [] None) = Some []"
    by code_simp
  from readLog_past_end [of "\<lambda>p. File (''a'' @ [NL] @ ''b'') None" "''job.log''"
      "[''a'', ''b'']" 2 10] h1
    readLog_past_end [of "\<lambda>p. File [] None" "''job.log''" "[]" "- 3" 10] h2
  show ?thesis by simp
qed

subsection \<open>Files above the size threshold\<close>

lemma scanRest_newlines:
  "0 < maxTokenSize sc \<Longrightarrow> scanErr sc = None \<Longrightarrow> input sc = replicate n NL \<Longrightarrow>
     scanRest sc = (replicate n [], None)"
proof (induction n arbitrary: sc)
  case 0
  then have "\<not> fst (Scan sc)" by (simp add: Scan_def)
  from scanRest_stop [OF this] 0 show ?case by (simp add: Scan_def)
next
  case (Suc n)
  then have sc: "Scan sc = (True, sc\<lparr>input := replicate n NL, token := []\<rparr>)"
    by (simp add: Scan_def dropCR_def)
  then have ok: "fst (Scan sc)" by simp
  from Suc.prems have "scanRest (sc\<lparr>input := replicate n NL, token := []\<rparr>) = (replicate n [], None)"
    by (intro Suc.IH) simp_all
  with scanRest_step [OF ok] sc show ?case by simp
qed

lemma fileLines_bigLogFile:
  "fileLines (File bigLogFile None) = Some (replicate 10485761 [])"
proof -
  have "scanRest (Buffer (NewScanner bigLogFile) (1024 * 1024)) = (replicate 10485761 [], None)"
    by (rule scanRest_newlines) (simp_all add: Buffer_def NewScanner_def bigLogFile_def)
  then show ?thesis by (simp add: fileLines_def)
qed

lemma unlines_replicate_Nil: "unlines (replicate n []) = replicate n NL"
  by (induction n) (simp_all add: unlines_def)

text \<open>
  C9 (amended). For a file whose size exceeds the threshold, a page size of zero or
  less is replaced by the default page size and an explicit positive page size is used
  as it is given: one call returns at most as many lines as the page size in effect,
  which is the caller's page size also when that is larger than the default.
\<close>

theorem readLog_large_file:
  assumes "fileLines (fs filePath) = Some T" and "maxLogFileSize < fileSize (fs filePath)"
  shows "\<exists>r. readLogFileWithPagination fs filePath fromLineNum pageSize = Inr r
           \<and> Content r = unlines (take (nat (effectivePageSize pageSize))
                                     (drop (nat (startLine fromLineNum)) T))
           \<and> int (length (take (nat (effectivePageSize pageSize))
                            (drop (nat (startLine fromLineNum)) T)))
               \<le> effectivePageSize pageSize
           \<and> effectivePageSize pageSize
               = (if pageSize \<le> 0 then defaultLogPageSize else pageSize)"
proof -
  from fileLines_File [OF assms(1)] obtain bytes where
    f: "fs filePath = File bytes None" and
    sr: "scanRest (Buffer (NewScanner bytes) (1024 * 1024)) = (T, None)" by blast
  from assms(2) f have "bytes \<noteq> []" by (auto simp: fileSize_def maxLogFileSize_def)
  with scanRest_empty_iff [OF sr] have ne: "T \<noteq> []" by simp
  let ?p = "effectivePageSize pageSize" and ?k = "startLine fromLineNum"
  have p1: "0 < ?p" by (simp add: effectivePageSize_def defaultLogPageSize_def)
  have k0: "0 \<le> ?k" by (simp add: startLine_def)
  have len: "int (length (take (nat ?p) (drop (nat ?k) T))) \<le> ?p"
    using p1 by simp
  have "\<exists>r. readLogFileWithPagination fs filePath fromLineNum pageSize = Inr r
          \<and> Content r = unlines (take (nat ?p) (drop (nat ?k) T))"
  proof (cases "int (length T) \<le> ?k")
    case True
    with k0 have "drop (nat ?k) T = []" by simp
    with True show ?thesis
      by (simp add: read_nonempty [of fs filePath T, OF assms(1) ne] unlines_def)
  next
    case False
    then show ?thesis
      by (simp add: read_nonempty [of fs filePath T, OF assms(1) ne])
  qed
  with len show ?thesis
    by (auto simp: effectivePageSize_def)
qed

theorem readLog_large_file_witness:
  "fileLines (File bigLogFile None) = Some (replicate 10485761 [])
   \<and> maxLogFileSize < fileSize (File bigLogFile None)
   \<and> Content (projr (readLogFileWithPagination (\<lambda>p. File bigLogFile None) ''big.log'' 0 0))
       = replicate 1000 NL"
proof -
  have sz: "maxLogFileSize < fileSize (File bigLogFile None)"
    by (simp add: maxLogFileSize_def fileSize_def bigLogFile_def)
  from readLog_large_file [of "\<lambda>p. File bigLogFile None" "''big.log''" "replicate 10485761 []" 0 0]
    fileLines_bigLogFile sz
  show ?thesis
    by (auto simp: effectivePageSize_def defaultLogPageSize_def startLine_def
          unlines_replicate_Nil)
qed

text \<open>
  C9 as stated fails: on a file of 10485761 bytes an explicit page size of 2000 returns
  2000 lines in one call, twice the default page size.
\<close>

theorem readLog_large_file_counterexample:
  "maxLogFileSize < fileSize (File bigLogFile None)
   \<and> defaultLogPageSize < 2000
   \<and> readLogFileWithPagination (\<lambda>p. File bigLogFile None) ''big.log'' 0 2000 =
         Inr \<lparr>Content = replicate 2000 NL, ToLineNum = 1999, IsEnd = False\<rparr>"
proof -
  have sz: "maxLogFileSize < fileSize (File bigLogFile None)"
    by (simp add: maxLogFileSize_def fileSize_def bigLogFile_def)
  have ne: "replicate 10485761 ([]::string) \<noteq> []" by simp
  have eff: "effectivePageSize 2000 = 2000" and st: "startLine 0 = 0"
    by (simp_all add: effectivePageSize_def startLine_def)
  note r = read_nonempty [of "\<lambda>p. File bigLogFile None" "''big.log''" "replicate 10485761 []"
      0 2000, OF fileLines_bigLogFile ne, unfolded eff st]
  have "readLogFileWithPagination (\<lambda>p. File bigLogFile None) ''big.log'' 0 2000 =
         Inr \<lparr>Content = replicate 2000 NL, ToLineNum = 1999, IsEnd = False\<rparr>"
    by (simp add: r unlines_replicate_Nil)
  with sz show ?thesis by (simp add: defaultLogPageSize_def)
qed


section \<open>Properties of the middlewares\<close>

subsection \<open>The retry loop\<close>

declare retryLoop.simps [simp del]





lemma retryLoop_cases [case_names finished interrupted panic success cancelled continue]:
  fixes i m :: int and ctx :: "'s context" and b :: duration and s :: 's
    and tr :: "event list" and h :: "'s TaskHandler" and p :: string and le :: "error option"
  defines "s1 \<equiv> (if 0 < i then snd (selectDoneOrAfter ctx b s) else s)"
      and "tr1 \<equiv> (if 0 < i then tr @ [Waited b] else tr)"
      and "b1 \<equiv> (if 0 < i then b * 2 else b)"
  obtains
    "\<not> i \<le> m" "retryLoop m h ctx p i b le s tr = (Returns le, s, tr)"
  | "i \<le> m" "0 < i" "fst (selectDoneOrAfter ctx b s)"
    "retryLoop m h ctx p i b le s tr =
       (Returns (ctxErr ctx (snd (selectDoneOrAfter ctx b s))),
        snd (selectDoneOrAfter ctx b s), tr @ [Interrupted b])"
  | v where "i \<le> m" "\<not> (0 < i \<and> fst (selectDoneOrAfter ctx b s))"
    "fst (h ctx p s1) = Panics v"
    "retryLoop m h ctx p i b le s tr =
       (Panics v, snd (h ctx p s1), tr1 @ [Attempt (Panics v)])"
  | "i \<le> m" "\<not> (0 < i \<and> fst (selectDoneOrAfter ctx b s))"
    "fst (h ctx p s1) = Returns None"
    "retryLoop m h ctx p i b le s tr =
       (Returns None, snd (h ctx p s1), tr1 @ [Attempt (Returns None)])"
  | e ce where "i \<le> m" "\<not> (0 < i \<and> fst (selectDoneOrAfter ctx b s))"
    "fst (h ctx p s1) = Returns (Some e)" "ctxErr ctx (snd (h ctx p s1)) = Some ce"
    "retryLoop m h ctx p i b le s tr =
       (Returns (Some ce), snd (h ctx p s1),
        tr1 @ [Attempt (Returns (Some e)), Checked (Some ce)])"
  | e where "i \<le> m" "\<not> (0 < i \<and> fst (selectDoneOrAfter ctx b s))"
    "fst (h ctx p s1) = Returns (Some e)" "ctxErr ctx (snd (h ctx p s1)) = None"
    "retryLoop m h ctx p i b le s tr =
       retryLoop m h ctx p (i + 1) b1 (Some e) (snd (h ctx p s1))
         (tr1 @ [Attempt (Returns (Some e)), Checked None])"
proof (cases "i \<le> m")
  case False
  then have "retryLoop m h ctx p i b le s tr = (Returns le, s, tr)"
    by (subst retryLoop.simps) simp
  with False that(1) show ?thesis by blast
next
  case le: True
  show ?thesis
  proof (cases "0 < i \<and> fst (selectDoneOrAfter ctx b s)")
    case True
    with le have "retryLoop m h ctx p i b le s tr =
       (Returns (ctxErr ctx (snd (selectDoneOrAfter ctx b s))),
        snd (selectDoneOrAfter ctx b s), tr @ [Interrupted b])"
      by (subst retryLoop.simps) simp
    with le True that(2) show ?thesis by blast
  next
    case nint: False
    have unfold: "retryLoop m h ctx p i b le s tr =
        (case fst (h ctx p s1) of
           Panics v \<Rightarrow> (Panics v, snd (h ctx p s1), tr1 @ [Attempt (fst (h ctx p s1))])
         | Returns None \<Rightarrow> (Returns None, snd (h ctx p s1), tr1 @ [Attempt (fst (h ctx p s1))])
         | Returns (Some err) \<Rightarrow>
             if ctxErr ctx (snd (h ctx p s1)) \<noteq> None
             then (Returns (ctxErr ctx (snd (h ctx p s1))), snd (h ctx p s1),
                   tr1 @ [Attempt (fst (h ctx p s1)), Checked (ctxErr ctx (snd (h ctx p s1)))])
             else retryLoop m h ctx p (i + 1) b1 (Some err) (snd (h ctx p s1))
                    (tr1 @ [Attempt (fst (h ctx p s1)), Checked (ctxErr ctx (snd (h ctx p s1)))]))"
      unfolding s1_def tr1_def b1_def
      by (subst retryLoop.simps)
         (simp only: Let_def le nint if_True if_False not_not not_True_eq_False)
    show ?thesis
    proof (cases "fst (h ctx p s1)")
      case (Panics v)
      with unfold le nint that(3) show ?thesis by simp
    next
      case (Returns err)
      show ?thesis
      proof (cases err)
        case None
        with Returns unfold le nint that(4) show ?thesis by simp
      next
        case (Some e)
        show ?thesis
        proof (cases "ctxErr ctx (snd (h ctx p s1))")
          case None
          with Some Returns unfold le nint that(6) show ?thesis by simp
        next
          case (Some ce)
          with \<open>err = Some e\<close> Returns unfold le nint that(5) show ?thesis by simp
        qed
      qed
    qed
  qed
qed


lemma retryLoop_terminal:
  assumes "\<forall>x\<in>set tr. \<not> terminal x"
  shows "(\<forall>x\<in>set (butlast (snd (snd (retryLoop m h ctx p i b le s tr)))). \<not> terminal x)
         \<and> (snd (snd (retryLoop m h ctx p i b le s tr)) \<noteq> []
              \<longrightarrow> terminal (last (snd (snd (retryLoop m h ctx p i b le s tr))))
              \<longrightarrow> fst (retryLoop m h ctx p i b le s tr)
                    = outcomeOf (last (snd (snd (retryLoop m h ctx p i b le s tr)))))"
  using assms
proof (induction "nat (m + 1 - i)" arbitrary: i b le s tr rule: less_induct)
  case less
  show ?case
  proof (cases rule: retryLoop_cases [where i=i and m=m and ctx=ctx and b=b and s=s and tr=tr and h=h and p=p and le=le])
    case finished
    with less.prems show ?thesis by (auto dest: in_set_butlastD)
  next
    case interrupted
    with less.prems show ?thesis by simp
  next
    case (panic v)
    with less.prems show ?thesis by (auto simp: butlast_append)
  next
    case success
    with less.prems show ?thesis by (auto simp: butlast_append)
  next
    case (cancelled e ce)
    with less.prems show ?thesis by (auto simp: butlast_append)
  next
    case (continue e)
    have "nat (m + 1 - (i + 1)) < nat (m + 1 - i)" using continue(1) by simp
    moreover have "\<forall>x\<in>set ((if 0 < i then tr @ [Waited b] else tr)
                     @ [Attempt (Returns (Some e)), Checked None]). \<not> terminal x"
      using less.prems by auto
    ultimately show ?thesis
      unfolding continue(5) by (rule less.hyps)
  qed
qed


lemma RetryMiddleware_fst:
  "fst (RetryMiddleware m b h ctx p s) = fst (retryLoop m h ctx p 0 b None s [])"
  by (simp add: RetryMiddleware_def split: prod.splits)

lemma RetryMiddleware_snd:
  "snd (RetryMiddleware m b h ctx p s) = fst (snd (retryLoop m h ctx p 0 b None s []))"
  by (simp add: RetryMiddleware_def split: prod.splits)

lemma retry_terminal_last:
  assumes ev: "retryEvents m b h ctx p s = pre @ x # post" and t: "terminal x"
  shows "post = [] \<and> fst (RetryMiddleware m b h ctx p s) = outcomeOf x"
proof -
  let ?T = "snd (snd (retryLoop m h ctx p 0 b None s []))"
  from retryLoop_terminal [of "[]" m h ctx p 0 b None s]
  have bl: "\<forall>y\<in>set (butlast ?T). \<not> terminal y"
    and la: "?T \<noteq> [] \<Longrightarrow> terminal (last ?T) \<Longrightarrow>
             fst (retryLoop m h ctx p 0 b None s []) = outcomeOf (last ?T)"
    by simp_all
  from ev have T: "?T = pre @ x # post" by (simp add: retryEvents_def)
  have post: "post = []"
  proof (rule ccontr)
    assume "post \<noteq> []"
    then have "x \<in> set (butlast ?T)" by (simp add: T butlast_append)
    with bl t show False by blast
  qed
  with T la t show ?thesis by (simp add: RetryMiddleware_fst)
qed

text \<open>
  The waits are products in \<open>time.Duration\<close>. As long as the product of the integers
  stays in the 64-bit range, it is the wait.
\<close>

lemma backoff_doubling_exact:
  fixes b :: duration
  assumes "- (2 ^ 63) \<le> sint b * 2 ^ k" and "sint b * 2 ^ k < 2 ^ 63"
  shows "sint (b * 2 ^ k) = sint b * 2 ^ k"
proof -
  have inrange: "sint (word_of_int x :: duration) = x" if "- (2 ^ 63) \<le> x" "x < 2 ^ 63" for x
    using that by (simp add: sint_sbintrunc' signed_take_bit_int_eq_self)
  have w: "word_of_int (sint b * 2 ^ k) = b * 2 ^ k"
    by simp
  from inrange [OF assms] show ?thesis
    by (simp only: w)
qed

subsection \<open>\<open>Chain\<close>\<close>

lemma nested_append: "nested (xs @ ys) h = nested xs (nested ys h)"
  by (induction xs) simp_all

lemma ChainLoop_nested:
  "- 1 \<le> i \<Longrightarrow> i < int (length ms) \<Longrightarrow> ChainLoop ms i h = nested (take (nat (i + 1)) ms) h"
proof (induction "nat (i + 1)" arbitrary: i h)
  case 0
  then have "i = - 1" by simp
  then show ?case by simp
next
  case (Suc n)
  then have i0: "0 \<le> i" and n: "n = nat (i - 1 + 1)" by simp_all
  from Suc.prems i0 have lt: "nat i < length ms" by simp
  have tk: "take (nat (i + 1)) ms = take (nat i) ms @ [ms ! nat i]"
    using i0 lt by (simp add: nat_add_distrib take_Suc_conv_app_nth)
  from Suc.hyps(1) [OF n, of "(ms ! nat i) h"] Suc.prems i0
  have "ChainLoop ms (i - 1) ((ms ! nat i) h) = nested (take (nat i) ms) ((ms ! nat i) h)"
    by simp
  with i0 show ?case
    by (subst ChainLoop.simps) (simp add: tk nested_append del: ChainLoop.simps)
qed


subsection \<open>The claims about the middlewares\<close>


text \<open>
  C10. When an attempt inside the retry loop returns an error and \<open>ctx.Err()\<close> then
  answers an error, the loop returns that error of the context at once: the state is
  the one the attempt left and nothing follows the attempt and the check in the run,
  neither a wait nor another attempt. So in every run of the handler that
  \<open>RetryMiddleware\<close> returns, a failed attempt followed by a cancelled context is the
  end of the run, and the result is the context's error, not the handler's.
\<close>

theorem RetryMiddleware_cancelled:
  "(i \<le> maxRetries \<and> \<not> (0 < i \<and> fst (selectDoneOrAfter ctx b s))
      \<and> fst (h ctx param (if 0 < i then snd (selectDoneOrAfter ctx b s) else s))
          = Returns (Some e)
      \<and> ctxErr ctx (snd (h ctx param (if 0 < i then snd (selectDoneOrAfter ctx b s) else s)))
          = Some cerr \<longrightarrow>
      retryLoop maxRetries h ctx param i b lastErr s tr
        = (Returns (Some cerr),
           snd (h ctx param (if 0 < i then snd (selectDoneOrAfter ctx b s) else s)),
           (if 0 < i then tr @ [Waited b] else tr)
             @ [Attempt (Returns (Some e)), Checked (Some cerr)]))
   \<and> (retryEvents maxRetries backoff h ctx param s0
         = pre @ Attempt (Returns (Some e')) # Checked (Some cerr') # post \<longrightarrow>
      post = [] \<and> fst (RetryMiddleware maxRetries backoff h ctx param s0) = Returns (Some cerr'))"
proof (intro conjI impI)
  assume a: "i \<le> maxRetries \<and> \<not> (0 < i \<and> fst (selectDoneOrAfter ctx b s))
      \<and> fst (h ctx param (if 0 < i then snd (selectDoneOrAfter ctx b s) else s))
          = Returns (Some e)
      \<and> ctxErr ctx (snd (h ctx param (if 0 < i then snd (selectDoneOrAfter ctx b s) else s)))
          = Some cerr"
  then show "retryLoop maxRetries h ctx param i b lastErr s tr
        = (Returns (Some cerr),
           snd (h ctx param (if 0 < i then snd (selectDoneOrAfter ctx b s) else s)),
           (if 0 < i then tr @ [Waited b] else tr)
             @ [Attempt (Returns (Some e)), Checked (Some cerr)])"
    by (cases rule: retryLoop_cases [where i=i and m=maxRetries and ctx=ctx and b=b
          and s=s and tr=tr and h=h and p=param and le=lastErr]) simp_all
next
  assume ev: "retryEvents maxRetries backoff h ctx param s0
         = pre @ Attempt (Returns (Some e')) # Checked (Some cerr') # post"
  then have "retryEvents maxRetries backoff h ctx param s0
         = (pre @ [Attempt (Returns (Some e'))]) @ Checked (Some cerr') # post" by simp
  from retry_terminal_last [OF this]
  show "post = []" and "fst (RetryMiddleware maxRetries backoff h ctx param s0) = Returns (Some cerr')"
    by simp_all
qed

theorem RetryMiddleware_cancelled_witness:
  "retryEvents 5 100000000 failingHandler (cancelledAfter 2) ''p'' 0 =
     [Attempt (Returns (Some (errorString ''first failure''))), Checked None, Waited 100000000,
      Attempt (Returns (Some (errorString ''second failure''))), Checked (Some Canceled)]
   \<and> fst (RetryMiddleware 5 100000000 failingHandler (cancelledAfter 2) ''p'' 0)
       = Returns (Some Canceled)
   \<and> retryLoop 5 failingHandler (cancelledAfter 2) ''p'' 1 100000000
         (Some (errorString ''first failure'')) 1 []
       = (Returns (Some Canceled), 2,
          [Waited 100000000, Attempt (Returns (Some (errorString ''second failure''))),
           Checked (Some Canceled)])"
proof -
  have ev: "retryEvents 5 100000000 failingHandler (cancelledAfter 2) ''p'' 0 =
     [Attempt (Returns (Some (errorString ''first failure''))), Checked None, Waited 100000000]
      @ Attempt (Returns (Some (errorString ''second failure''))) # Checked (Some Canceled) # []"
    by (simp add: Let_def retryEvents_def retryLoop.simps failingHandler_def cancelledAfter_def)
  from RetryMiddleware_cancelled [of 1 5 "cancelledAfter 2" 100000000 1 failingHandler "''p''"
      "errorString ''second failure''" Canceled "Some (errorString ''first failure'')" "[]"
      100000000 0
      "[Attempt (Returns (Some (errorString ''first failure''))), Checked None, Waited 100000000]"
      "errorString ''second failure''" Canceled "[]"] ev
  show ?thesis
    by (simp add: failingHandler_def cancelledAfter_def)
qed

text \<open>
  C7. \<open>Chain\<close> of the middlewares \<open>m1, ..., mn\<close> applied to a handler is the nesting
  \<open>m1 (m2 (... (mn h)))\<close>, the first middleware outermost, and so is
  \<open>applyMiddlewares\<close>; with no middlewares both return the handler itself.
\<close>

theorem Chain_nested:
  "Chain ms h = nested ms h
   \<and> applyMiddlewares h ms = nested ms h
   \<and> Chain [] h = h
   \<and> applyMiddlewares h [] = h"
proof -
  have c: "Chain ms h = nested ms h" for ms :: "'a Middleware list"
    using ChainLoop_nested [of "int (length ms) - 1" ms h] by (simp add: Chain_def)
  have a: "applyMiddlewares h ms = nested ms h"
    by (cases ms) (simp_all add: applyMiddlewares_def c)
  from c [of ms] c [of "[]"] a show ?thesis
    by (simp add: applyMiddlewares_def)
qed

text \<open>
  C8. When the wrapped handler panics, the handler that \<open>RecoveryMiddleware\<close> returns
  returns an error: the panic value itself when that is an error, and otherwise a
  \<open>panicError\<close> whose message is \<open>panic: \<close> followed by the value. It never panics.
\<close>

theorem RecoveryMiddleware_recovers:
  assumes "fst (h ctx param s) = Panics r"
  shows "(\<exists>e. RecoveryMiddleware h ctx param s = (Returns (Some e), snd (h ctx param s))
              \<and> (case r of
                    PanicError e' \<Rightarrow> e = e'
                  | PanicValue v \<Rightarrow> e = panicError v \<and> Error e = ''panic: '' @ v))
         \<and> (\<forall>h' ctx' param' s' r'. fst (RecoveryMiddleware h' ctx' param' s') \<noteq> Panics r')"
proof
  from assms show "\<exists>e. RecoveryMiddleware h ctx param s = (Returns (Some e), snd (h ctx param s))
              \<and> (case r of
                    PanicError e' \<Rightarrow> e = e'
                  | PanicValue v \<Rightarrow> e = panicError v \<and> Error e = ''panic: '' @ v)"
    by (cases "h ctx param s"; cases r) (simp_all add: RecoveryMiddleware_def)
next
  show "\<forall>h' ctx' param' s' r'. fst (RecoveryMiddleware h' ctx' param' s') \<noteq> Panics r'"
    by (auto simp: RecoveryMiddleware_def split: prod.splits result.splits panicValue.splits)
qed

theorem RecoveryMiddleware_recovers_witness:
  "fst (panickingHandler liveCtx ''p'' 0) = Panics (PanicValue ''boom'')
   \<and> RecoveryMiddleware panickingHandler liveCtx ''p'' 0
       = (Returns (Some (panicError ''boom'')), 1)
   \<and> Error (panicError ''boom'') = ''panic: boom''"
proof -
  have h: "fst (panickingHandler liveCtx ''p'' 0) = Panics (PanicValue ''boom'')"
    by (simp add: panickingHandler_def)
  from RecoveryMiddleware_recovers [of panickingHandler liveCtx "''p''" 0 "PanicValue ''boom''", OF h] h
  show ?thesis
    by (auto simp: panickingHandler_def)
qed

section \<open>Properties of the execution wrapper and the executor\<close>

lemma executeTaskWithTrace_fst:
  "fst (executeTaskWithTrace env ctx taskName param logID handler traceOn s) =
     (case fst (handler ctx param (taskEntryState env ctx taskName param logID traceOn s)) of
        Panics v \<Rightarrow> Panics v
      | Returns None \<Rightarrow> Returns (''SUCCESS'', None)
      | Returns (Some e) \<Rightarrow> Returns (''FAIL: '' @ Error e, None))"
proof -
  have entry: "taskEntryState env ctx taskName param logID traceOn s =
      emit env (LogRecord ''info'' ''XXL-JOB task started''
        [(''task_name'', AString taskName), (''param'', AString param),
         (''log_id'', AInt logID)])
       (case logWriterValue ctx of
          Some w \<Rightarrow> Write w (TaskStartedLine taskName param)
             (if traceOn
              then emit env (SpanStart ''xxljob.task.execute''
                     [(''xxljob.task.name'', AString taskName),
                      (''xxljob.task.param'', AString param),
                      (''xxljob.log.id'', AInt logID)]) s
              else s)
        | None \<Rightarrow>
             (if traceOn
              then emit env (SpanStart ''xxljob.task.execute''
                     [(''xxljob.task.name'', AString taskName),
                      (''xxljob.task.param'', AString param),
                      (''xxljob.log.id'', AInt logID)]) s
              else s))"
    by (simp add: taskEntryState_def split: option.splits)
  show ?thesis
    unfolding executeTaskWithTrace_def Let_def entry [symmetric]
    by (simp split: result.splits option.splits)
qed

lemma executeTaskWithTrace_err_None:
  "fst (executeTaskWithTrace env ctx taskName param logID handler traceOn s)
     = Returns (txt, err) \<Longrightarrow> err = None"
  by (auto simp: executeTaskWithTrace_fst split: result.splits option.splits)

text \<open>The function registered for a task never changes the executor's last error.\<close>

lemma taskFunc_lastError:
  "lastError (fst (snd (taskFunc env taskName h ctx param (e, s)))) = lastError e"
  unfolding taskFunc_def Let_def
  by (auto split: result.splits prod.splits option.splits dest: executeTaskWithTrace_err_None)

text \<open>
  C1. Whatever the task name, parameter, invocation id and handler:
  \<open>executeTaskWithTrace\<close> returns the text \<open>SUCCESS\<close> with a nil error when the handler
  returns nil, the text \<open>FAIL: \<close> followed by the error's message with a nil error when
  the handler returns an error, and whenever it returns, its error is nil.
\<close>

theorem executeTaskWithTrace_result:
  "(fst (handler ctx param (taskEntryState env ctx taskName param logID traceOn s))
      = Returns None \<longrightarrow>
      fst (executeTaskWithTrace env ctx taskName param logID handler traceOn s)
        = Returns (''SUCCESS'', None))
   \<and> (fst (handler ctx param (taskEntryState env ctx taskName param logID traceOn s))
      = Returns (Some e) \<longrightarrow>
      fst (executeTaskWithTrace env ctx taskName param logID handler traceOn s)
        = Returns (''FAIL: '' @ Error e, None))
   \<and> (\<forall>txt err. fst (executeTaskWithTrace env ctx taskName param logID handler traceOn s)
                    = Returns (txt, err) \<longrightarrow> err = None)"
  by (auto simp: executeTaskWithTrace_fst split: result.splits option.splits)

theorem executeTaskWithTrace_result_witness:
  "fst (succeedingHandler liveCtx ''p'' (taskEntryState quietEnv liveCtx ''job'' ''p'' 7 True 0))
     = Returns None
   \<and> fst (executeTaskWithTrace quietEnv liveCtx ''job'' ''p'' 7 succeedingHandler True 0)
     = Returns (''SUCCESS'', None)
   \<and> fst (failingHandler liveCtx ''p'' (taskEntryState quietEnv liveCtx ''job'' ''p'' 7 True 0))
     = Returns (Some (errorString ''first failure''))
   \<and> fst (executeTaskWithTrace quietEnv liveCtx ''job'' ''p'' 7 failingHandler True 0)
     = Returns (''FAIL: first failure'', None)"
proof -
  have h1: "fst (succeedingHandler liveCtx ''p''
                  (taskEntryState quietEnv liveCtx ''job'' ''p'' 7 True 0)) = Returns None"
    by (simp add: succeedingHandler_def)
  have h2: "fst (failingHandler liveCtx ''p''
                  (taskEntryState quietEnv liveCtx ''job'' ''p'' 7 True 0))
              = Returns (Some (errorString ''first failure''))"
    by (simp add: failingHandler_def taskEntryState_def quietEnv_def liveCtx_def)
  from executeTaskWithTrace_result [of succeedingHandler liveCtx "''p''" quietEnv "''job''" 7 True 0]
    executeTaskWithTrace_result [of failingHandler liveCtx "''p''" quietEnv "''job''" 7 True 0
      "errorString ''first failure''"] h1 h2
  show ?thesis by simp
qed

text \<open>
  C5 does not hold of the code. With the failing handler registered as \<open>job\<close>, an
  invocation reports \<open>FAIL: first failure\<close> to the scheduler, and the health status
  taken afterwards has no last error: \<open>executeTaskWithTrace\<close> never returns an error,
  so the assignment to \<open>lastError\<close> in the registered function is never reached.
\<close>

theorem failed_task_leaves_LastError_unset:
  "map_option fst
     (runTask quietEnv demoExecutor ''job'' liveCtx
        (Some \<lparr>ExecutorParams = ''p'', LogID = 7\<rparr>) 0)
     = Some (Returns ''FAIL: first failure'')
   \<and> map_option (\<lambda>r. LastError (GetHealthStatus (fst (snd r))))
       (runTask quietEnv demoExecutor ''job'' liveCtx
          (Some \<lparr>ExecutorParams = ''p'', LogID = 7\<rparr>) 0)
     = Some None"
  by code_simp


end
